theory Spec2Isabelle
  imports Complex_Main
begin

section \<open>Python strings and numbers\<close>

text \<open>
  A Python \<open>str\<close> is a sequence of Unicode code points; the Vietnamese letters of the
  transliteration table lie outside Latin-1, so a string is a list of code points
  (natural numbers), not of bytes.  \<open>u\<close> embeds an ASCII literal.
\<close>

type_synonym ustr = "nat list"

definition u :: "string \<Rightarrow> ustr" where
  "u s = map of_char s"

text \<open>The exceptions of the modelled code; \<open>SQLAlchemyError\<close> stands for the
  database errors (an integrity error at the flush, or what follows from one).\<close>

datatype py_error =
    KeyError | ValueError | AttributeError | ZeroDivisionError | SQLAlchemyError
  | OtherError ustr

text \<open>\<open>str.isspace\<close> for one code point: the characters \<open>str.strip()\<close> removes
  and the regular-expression class \<open>\s\<close> matches.\<close>

definition is_space :: "nat \<Rightarrow> bool" where
  "is_space c \<longleftrightarrow>
     (9 \<le> c \<and> c \<le> 13) \<or> (28 \<le> c \<and> c \<le> 32) \<or> c = 133 \<or> c = 160 \<or> c = 5760 \<or>
     (8192 \<le> c \<and> c \<le> 8202) \<or> c = 8232 \<or> c = 8233 \<or> c = 8239 \<or> c = 8287 \<or>
     c = 12288"

text \<open>\<open>s.strip(chars)\<close>: drop the characters satisfying \<open>P\<close> from both ends.\<close>

definition strip_chars :: "(nat \<Rightarrow> bool) \<Rightarrow> ustr \<Rightarrow> ustr" where
  "strip_chars P s = rev (dropWhile P (rev (dropWhile P s)))"

definition py_strip :: "ustr \<Rightarrow> ustr" where
  "py_strip s = strip_chars is_space s"

text \<open>The class \<open>\d\<close>, restricted to the ASCII digits (the other Unicode decimal digits
  are not modelled).\<close>

definition is_digit :: "nat \<Rightarrow> bool" where
  "is_digit c \<longleftrightarrow> 48 \<le> c \<and> c \<le> 57"

text \<open>The value of a string of ASCII digits, most significant digit first.\<close>

definition digits_value :: "ustr \<Rightarrow> nat" where
  "digits_value ds = foldl (\<lambda>acc c. 10 * acc + (c - 48)) 0 ds"

text \<open>
  \<open>float(s)\<close> for a string made of ASCII digits and periods only, which is all the
  price cleaners below hand to it: the parse succeeds when there is at most one
  period and at least one digit, and raises \<open>ValueError\<close> (here \<open>None\<close>) otherwise.
  A Python float is modelled by the rational number the literal denotes; binary
  rounding is abstracted away.
\<close>

definition py_float :: "ustr \<Rightarrow> rat option" where
  "py_float s =
     (let ip = takeWhile is_digit s; rest = dropWhile is_digit s in
      case rest of
        [] \<Rightarrow> if ip = [] then None else Some (of_nat (digits_value ip))
      | c # fp \<Rightarrow>
          if c = 46 \<and> list_all is_digit fp \<and> (ip \<noteq> [] \<or> fp \<noteq> [])
          then Some (of_nat (digits_value ip) + of_nat (digits_value fp) / 10 ^ length fp)
          else None)"



section \<open>Price extraction in the page parsers\<close>

text \<open>
  \<open>price_clean = re.sub(r'[^\d.,]', '', price_text.replace(',', ''))\<close>: commas are
  removed first, then everything that is not a digit, a period or a comma.
\<close>

definition price_clean :: "ustr \<Rightarrow> ustr" where
  "price_clean s =
     filter (\<lambda>c. is_digit c \<or> c = 46 \<or> c = 44) (filter (\<lambda>c. c \<noteq> 44) s)"

text \<open>\<open>ProductDetailParser._parse_price\<close> and \<open>ProductListParser._parse_price\<close>:
  both branches of either method end in the same \<open>float(price_clean)\<close>.\<close>

definition parse_price :: "ustr \<Rightarrow> rat option" where
  "parse_price price_text =
     (if price_text = [] then None else py_float (price_clean price_text))"












section \<open>Raw scraped values\<close>

text \<open>
  The normalizer receives untyped values (\<open>Any\<close>).  The constructors are the Python
  types the methods distinguish with \<open>isinstance\<close>; \<open>PObj t s\<close> is any other object
  (a list, a dictionary, ...), given by its truth value \<open>t\<close> and by what \<open>str()\<close>
  returns for it (\<open>None\<close> when \<open>str()\<close> raises).  Floats are rationals.
\<close>

datatype pyval =
    PNone | PBool bool | PInt int | PFloat rat | PStr ustr | PObj bool "ustr option"

text \<open>Truth value of an object, as \<open>not x\<close> and \<open>if x\<close> read it.\<close>

fun truthy :: "pyval \<Rightarrow> bool" where
  "truthy PNone = False"
| "truthy (PBool b) = b"
| "truthy (PInt i) = (i \<noteq> 0)"
| "truthy (PFloat x) = (x \<noteq> 0)"
| "truthy (PStr s) = (s \<noteq> [])"
| "truthy (PObj t s) = t"

text \<open>Decimal digits of a natural number.\<close>

fun nat_str :: "nat \<Rightarrow> ustr" where
  "nat_str n = (if n < 10 then [48 + n] else nat_str (n div 10) @ [48 + n mod 10])"

declare nat_str.simps [simp del]

text \<open>The digits after the decimal point of a float's \<open>repr\<close>, for a fraction
  \<open>0 \<le> f < 1\<close> with a short decimal expansion (at most 17 digits are produced).\<close>

fun frac_digits :: "nat \<Rightarrow> rat \<Rightarrow> ustr" where
  "frac_digits 0 f = []"
| "frac_digits (Suc n) f =
     (let d = \<lfloor>f * 10\<rfloor>; r = f * 10 - of_int d in
      (48 + nat d) # (if r = 0 then [] else frac_digits n r))"

text \<open>\<open>str(x)\<close>.  For a float, the plain notation \<open>repr\<close> uses between 1e-4 and
  1e16; the exponent notation outside that range is not modelled.\<close>

fun py_str :: "pyval \<Rightarrow> py_error + ustr" where
  "py_str PNone = Inr (u ''None'')"
| "py_str (PBool b) = Inr (if b then u ''True'' else u ''False'')"
| "py_str (PInt i) = Inr (if i < 0 then 45 # nat_str (nat (- i)) else nat_str (nat i))"
| "py_str (PFloat x) =
     Inr ((if x < 0 then [45] else []) @ nat_str (nat \<lfloor>\<bar>x\<bar>\<rfloor>) @ [46] @
          frac_digits 17 (\<bar>x\<bar> - of_int \<lfloor>\<bar>x\<bar>\<rfloor>))"
| "py_str (PStr s) = Inr s"
| "py_str (PObj t s) = (case s of None \<Rightarrow> Inl (OtherError (u ''str'')) | Some r \<Rightarrow> Inr r)"

section \<open>The normalizer\<close>

subsection \<open>Slugs\<close>

text \<open>
  \<open>str.lower()\<close>, one code point at a time, on ASCII, Latin-1 and the Vietnamese
  capitals of the transliteration table (in Latin Extended-A/B and Latin Extended
  Additional).  The case pairs of the other Unicode blocks are not modelled: those
  code points are left as they are.
\<close>

definition lower_cp :: "nat \<Rightarrow> nat" where
  "lower_cp c =
     (if 65 \<le> c \<and> c \<le> 90 then c + 32
      else if 192 \<le> c \<and> c \<le> 222 \<and> c \<noteq> 215 then c + 32
      else if c = 258 \<or> c = 272 \<or> c = 296 \<or> c = 360 \<or> c = 416 \<or> c = 431 then c + 1
      else if 7840 \<le> c \<and> c \<le> 7929 \<and> even c then c + 1
      else c)"

definition py_lower :: "ustr \<Rightarrow> ustr" where
  "py_lower s = map lower_cp s"

text \<open>
  The class \<open>\w\<close> of a Unicode pattern: alphanumeric code points and the underscore,
  given here for Basic Latin, Latin-1, Latin Extended-A/B and Latin Extended
  Additional; code points of other blocks count as non-word characters.
\<close>

definition is_word :: "nat \<Rightarrow> bool" where
  "is_word c \<longleftrightarrow>
     (48 \<le> c \<and> c \<le> 57) \<or> (65 \<le> c \<and> c \<le> 90) \<or> c = 95 \<or> (97 \<le> c \<and> c \<le> 122) \<or>
     c = 170 \<or> c = 178 \<or> c = 179 \<or> c = 181 \<or> c = 185 \<or> c = 186 \<or>
     (188 \<le> c \<and> c \<le> 190) \<or> (192 \<le> c \<and> c \<le> 214) \<or> (216 \<le> c \<and> c \<le> 246) \<or>
     (248 \<le> c \<and> c \<le> 591) \<or> (7680 \<le> c \<and> c \<le> 7935)"

text \<open>\<open>_build_vietnamese_chars_map\<close>: the dictionary in insertion order, every key and
  value a single code point (keys precomposed; values 97 a, 101 e, 105 i, 111 o,
  117 u, 121 y, 100 d and their capitals).\<close>

definition vietnamese_chars_map :: "(nat \<times> nat) list" where
  "vietnamese_chars_map =
     [(225, 97), (224, 97), (7843, 97), (227, 97), (7841, 97),
      (259, 97), (7855, 97), (7857, 97), (7859, 97), (7861, 97), (7863, 97),
      (226, 97), (7845, 97), (7847, 97), (7849, 97), (7851, 97), (7853, 97),
      (233, 101), (232, 101), (7867, 101), (7869, 101), (7865, 101),
      (234, 101), (7871, 101), (7873, 101), (7875, 101), (7877, 101), (7879, 101),
      (237, 105), (236, 105), (7881, 105), (297, 105), (7883, 105),
      (243, 111), (242, 111), (7887, 111), (245, 111), (7885, 111),
      (244, 111), (7889, 111), (7891, 111), (7893, 111), (7895, 111), (7897, 111),
      (417, 111), (7899, 111), (7901, 111), (7903, 111), (7905, 111), (7907, 111),
      (250, 117), (249, 117), (7911, 117), (361, 117), (7909, 117),
      (432, 117), (7913, 117), (7915, 117), (7917, 117), (7919, 117), (7921, 117),
      (253, 121), (7923, 121), (7927, 121), (7929, 121), (7925, 121),
      (273, 100),
      (193, 65), (192, 65), (7842, 65), (195, 65), (7840, 65),
      (258, 65), (7854, 65), (7856, 65), (7858, 65), (7860, 65), (7862, 65),
      (194, 65), (7844, 65), (7846, 65), (7848, 65), (7850, 65), (7852, 65),
      (201, 69), (200, 69), (7866, 69), (7868, 69), (7864, 69),
      (202, 69), (7870, 69), (7872, 69), (7874, 69), (7876, 69), (7878, 69),
      (205, 73), (204, 73), (7880, 73), (296, 73), (7882, 73),
      (211, 79), (210, 79), (7886, 79), (213, 79), (7884, 79),
      (212, 79), (7888, 79), (7890, 79), (7892, 79), (7894, 79), (7896, 79),
      (416, 79), (7898, 79), (7900, 79), (7902, 79), (7904, 79), (7906, 79),
      (218, 85), (217, 85), (7910, 85), (360, 85), (7908, 85),
      (431, 85), (7912, 85), (7914, 85), (7916, 85), (7918, 85), (7920, 85),
      (221, 89), (7922, 89), (7926, 89), (7928, 89), (7924, 89),
      (272, 68)]"

text \<open>\<open>s.replace(old, new)\<close> for single code points.\<close>

definition replace_cp :: "nat \<Rightarrow> nat \<Rightarrow> ustr \<Rightarrow> ustr" where
  "replace_cp old new s = map (\<lambda>c. if c = old then new else c) s"

text \<open>The loop \<open>for vn_char, en_char in self.vietnamese_chars_map.items()\<close>.\<close>

definition replace_vietnamese :: "ustr \<Rightarrow> ustr" where
  "replace_vietnamese s = foldl (\<lambda>acc (vn, en). replace_cp vn en acc) s vietnamese_chars_map"

text \<open>\<open>re.sub(r'[^\w\s-]', '', s)\<close> keeps word characters, whitespace and hyphens.\<close>

definition slug_keep :: "nat \<Rightarrow> bool" where
  "slug_keep c \<longleftrightarrow> is_word c \<or> is_space c \<or> c = 45"

definition slug_sep :: "nat \<Rightarrow> bool" where
  "slug_sep c \<longleftrightarrow> c = 45 \<or> is_space c"

text \<open>\<open>re.sub(r'[-\s]+', '-', s)\<close>: every maximal run of hyphens and whitespace
  becomes one hyphen.\<close>

function collapse_seps :: "ustr \<Rightarrow> ustr" where
  "collapse_seps [] = []"
| "collapse_seps (c # cs) =
     (if slug_sep c then 45 # collapse_seps (dropWhile slug_sep cs)
      else c # collapse_seps cs)"
  by pat_completeness auto
termination
  by (relation "measure length") (auto simp: length_dropWhile_le less_Suc_eq_le)

text \<open>The body of the \<open>try\<close> block of \<open>normalize_slug\<close>, from \<open>str(slug)\<close> on.\<close>

definition slug_clean :: "ustr \<Rightarrow> ustr" where
  "slug_clean s0 =
     (let s1 = py_lower (py_strip s0);
          s2 = strip_chars (\<lambda>c. c = 47 \<or> c = 32) s1;
          s3 = replace_vietnamese s2;
          s4 = filter slug_keep s3;
          s5 = collapse_seps s4
      in strip_chars (\<lambda>c. c = 45) s5)"

text \<open>\<open>DataNormalizer.normalize_slug\<close>: a falsy argument gives the empty string before
  the \<open>try\<close> block is entered; an exception inside it gives \<open>'unknown'\<close>.\<close>

definition normalize_slug :: "pyval \<Rightarrow> ustr" where
  "normalize_slug slug =
     (if \<not> truthy slug then []
      else case py_str slug of
             Inl e \<Rightarrow> u ''unknown''
           | Inr s0 \<Rightarrow> (let r = slug_clean s0 in if r = [] then u ''unknown'' else r))"

subsection \<open>Prices\<close>

text \<open>\<open>DataNormalizer.normalize_price\<close>.  \<open>bool\<close> is a subclass of \<open>int\<close>, so a
  boolean takes the numeric branch.  The string branch cleans the text the way the
  parsers do and returns \<open>None\<close> when nothing is left or \<open>float\<close> rejects it.\<close>

definition normalize_price :: "pyval \<Rightarrow> rat option" where
  "normalize_price price =
     (if price = PNone \<or> price = PStr [] then None
      else case price of
             PBool b \<Rightarrow> Some (if b then 1 else 0)
           | PInt i \<Rightarrow> if 0 \<le> i then Some (of_int i) else None
           | PFloat x \<Rightarrow> if 0 \<le> x then Some x else None
           | PStr s \<Rightarrow>
               (let pc = price_clean s in if pc = [] then None else py_float pc)
           | _ \<Rightarrow> None)"

subsection \<open>Whole records\<close>


text \<open>\<open>d.get(key, default)\<close>; \<open>d.get(key)\<close> has the default \<open>None\<close>.\<close>

definition dict_get :: "(string \<rightharpoonup> pyval) \<Rightarrow> string \<Rightarrow> pyval \<Rightarrow> pyval" where
  "dict_get d k dflt = (case d k of None \<Rightarrow> dflt | Some v \<Rightarrow> v)"








subsection \<open>The shape of a finished slug\<close>





section \<open>The persistence layer\<close>

subsection \<open>Tables\<close>

text \<open>
  A row of a table gives every column its value, \<open>PNone\<close> standing for SQL NULL; a
  payload is the dictionary handed to an upsert.  Values are stored as given (the
  type affinity conversions of the database are not modelled), datetimes are
  integer clock readings, and every call reads the clock once (\<open>now\<close>).
\<close>

type_synonym row = "string \<Rightarrow> pyval"
type_synonym payload = "string \<rightharpoonup> pyval"

record crawl_session =
  cs_id :: int
  started_at :: int
  finished_at :: "int option"
  status :: string
  categories_found :: int
  products_found :: int
  products_updated :: int
  products_created :: int
  cs_errors :: "ustr option"

record database =
  categories :: "row list"
  brands :: "row list"
  products :: "row list"
  crawl_sessions :: "crawl_session list"

definition category_columns :: "string list" where
  "category_columns =
     [''id'', ''name'', ''slug'', ''url'', ''parent_id'', ''description'', ''created_at'',
      ''updated_at'']"

definition brand_columns :: "string list" where
  "brand_columns =
     [''id'', ''name'', ''slug'', ''url'', ''description'', ''created_at'', ''updated_at'']"

definition product_columns :: "string list" where
  "product_columns =
     [''id'', ''name'', ''slug'', ''url'', ''description'', ''price'', ''original_price'',
      ''discount_percentage'', ''sku'', ''availability'', ''rating'', ''review_count'',
      ''image_url'', ''images'', ''ingredients'', ''usage_instructions'', ''category_id'',
      ''brand_id'', ''is_featured'', ''is_bestseller'', ''is_new'', ''is_sale'',
      ''created_at'', ''updated_at'']"

text \<open>The constraints of \<open>models.py\<close>: the primary key and the columns declared
  \<open>nullable=False\<close>, and the primary key and the columns declared \<open>unique=True\<close>.\<close>

definition category_not_null :: "string list" where
  "category_not_null = [''id'', ''name'', ''slug'', ''url'']"

definition category_unique :: "string list" where
  "category_unique = [''id'', ''name'', ''slug'']"

definition brand_not_null :: "string list" where
  "brand_not_null = [''id'', ''name'', ''slug'']"

definition brand_unique :: "string list" where
  "brand_unique = [''id'', ''name'', ''slug'']"

definition product_not_null :: "string list" where
  "product_not_null = [''id'', ''name'', ''slug'', ''url'', ''category_id'']"

definition product_unique :: "string list" where
  "product_unique = [''id'', ''slug'', ''url'']"

text \<open>Writing row \<open>r\<close> beside the rows \<open>others\<close> fails at the flush when a NOT NULL
  column is NULL or a unique column repeats a value of another row.\<close>

definition violates :: "string list \<Rightarrow> string list \<Rightarrow> row \<Rightarrow> row list \<Rightarrow> bool" where
  "violates not_null uniq r others \<longleftrightarrow>
     list_ex (\<lambda>c. r c = PNone) not_null \<or>
     list_ex (\<lambda>c. r c \<noteq> PNone \<and> list_ex (\<lambda>other. other c = r c) others) uniq"

text \<open>\<open>query.filter(...).first()\<close>: the first row in table order, by position and by
  value.\<close>

fun first_index :: "('a \<Rightarrow> bool) \<Rightarrow> 'a list \<Rightarrow> nat option" where
  "first_index P [] = None"
| "first_index P (x # xs) =
     (if P x then Some 0 else map_option Suc (first_index P xs))"

definition others :: "nat \<Rightarrow> 'a list \<Rightarrow> 'a list" where
  "others i rows = take i rows @ drop (Suc i) rows"

definition id_of :: "row \<Rightarrow> int" where
  "id_of r = (case r ''id'' of PInt i \<Rightarrow> i | _ \<Rightarrow> 0)"

text \<open>The key a new row receives: one more than the largest key in the table.\<close>

definition new_id :: "row list \<Rightarrow> int" where
  "new_id rows = 1 + fold max (map id_of rows) 0"

definition mk_row :: "(string \<times> pyval) list \<Rightarrow> row" where
  "mk_row kvs = (\<lambda>k. case map_of kvs k of None \<Rightarrow> PNone | Some v \<Rightarrow> v)"

text \<open>
  The loop \<open>for key, value in data.items(): if key not in skip and ok(value):
  setattr(existing, key, value)\<close>.  The keys of a dictionary are distinct, so the
  assignments do not interfere; an attribute that is not a column of the table is
  not stored.
\<close>

definition overwrite ::
  "string list \<Rightarrow> string list \<Rightarrow> (pyval \<Rightarrow> bool) \<Rightarrow> payload \<Rightarrow> row \<Rightarrow> row" where
  "overwrite cols skip ok data r =
     (\<lambda>k. case data k of
            None \<Rightarrow> r k
          | Some v \<Rightarrow> if k \<in> set cols \<and> k \<notin> set skip \<and> ok v then v else r k)"

subsection \<open>Upserts\<close>

text \<open>\<open>DatabaseManager.upsert_category\<close>.  Every failure inside the \<open>try\<close> is
  rolled back and raised again, so the database is returned as it was.\<close>

definition upsert_category ::
  "int \<Rightarrow> payload \<Rightarrow> database \<Rightarrow> (py_error + row \<times> bool) \<times> database" where
  "upsert_category now category_data db =
     (case category_data ''slug'' of
        None \<Rightarrow> (Inl KeyError, db)
      | Some slug \<Rightarrow>
          (case first_index (\<lambda>r. r ''slug'' = slug) (categories db) of
             Some i \<Rightarrow>
               (let existing_category = categories db ! i;
                    updated =
                      (overwrite category_columns [''slug''] truthy category_data
                         existing_category)(''updated_at'' := PInt now)
                in if violates category_not_null category_unique updated
                        (others i (categories db))
                   then (Inl SQLAlchemyError, db)
                   else (Inr (updated, False),
                         db\<lparr>categories := (categories db)[i := updated]\<rparr>))
           | None \<Rightarrow>
               (let parent =
                      (if truthy (dict_get category_data ''parent_slug'' PNone)
                       then find (\<lambda>r. r ''slug'' = dict_get category_data ''parent_slug'' PNone)
                              (categories db)
                       else None)
                in case (category_data ''name'', category_data ''url'') of
                     (Some name, Some url) \<Rightarrow>
                       (let category = mk_row
                              [(''id'', PInt (new_id (categories db))),
                               (''name'', name), (''slug'', slug), (''url'', url),
                               (''parent_id'', case parent of None \<Rightarrow> PNone | Some p \<Rightarrow> p ''id''),
                               (''description'', dict_get category_data ''description'' (PStr [])),
                               (''created_at'', PInt now), (''updated_at'', PInt now)]
                        in if violates category_not_null category_unique category (categories db)
                           then (Inl SQLAlchemyError, db)
                           else (Inr (category, True),
                                 db\<lparr>categories := categories db @ [category]\<rparr>))
                   | _ \<Rightarrow> (Inl KeyError, db))))"

text \<open>\<open>DatabaseManager.upsert_brand\<close>.\<close>

definition upsert_brand ::
  "int \<Rightarrow> payload \<Rightarrow> database \<Rightarrow> (py_error + row \<times> bool) \<times> database" where
  "upsert_brand now brand_data db =
     (case brand_data ''slug'' of
        None \<Rightarrow> (Inl KeyError, db)
      | Some slug \<Rightarrow>
          (case first_index (\<lambda>r. r ''slug'' = slug) (brands db) of
             Some i \<Rightarrow>
               (let existing_brand = brands db ! i;
                    updated =
                      (overwrite brand_columns [''slug''] truthy brand_data
                         existing_brand)(''updated_at'' := PInt now)
                in if violates brand_not_null brand_unique updated (others i (brands db))
                   then (Inl SQLAlchemyError, db)
                   else (Inr (updated, False), db\<lparr>brands := (brands db)[i := updated]\<rparr>))
           | None \<Rightarrow>
               (case brand_data ''name'' of
                  None \<Rightarrow> (Inl KeyError, db)
                | Some name \<Rightarrow>
                    (let brand = mk_row
                           [(''id'', PInt (new_id (brands db))),
                            (''name'', name), (''slug'', slug),
                            (''url'', dict_get brand_data ''url'' (PStr [])),
                            (''description'', dict_get brand_data ''description'' (PStr [])),
                            (''created_at'', PInt now), (''updated_at'', PInt now)]
                     in if violates brand_not_null brand_unique brand (brands db)
                        then (Inl SQLAlchemyError, db)
                        else (Inr (brand, True), db\<lparr>brands := brands db @ [brand]\<rparr>)))))"

text \<open>\<open>_get_or_create_category_by_name\<close> and \<open>_get_or_create_brand_by_name\<close>: an
  exception of the nested upsert is logged and answered with \<open>None\<close>.\<close>

definition stub_data :: "pyval \<Rightarrow> payload" where
  "stub_data name =
     [''name'' \<mapsto> name, ''slug'' \<mapsto> PStr (normalize_slug name), ''url'' \<mapsto> PStr [],
      ''description'' \<mapsto> PStr []]"

definition get_or_create_category_by_name ::
  "int \<Rightarrow> pyval \<Rightarrow> database \<Rightarrow> row option \<times> database" where
  "get_or_create_category_by_name now category_name db =
     (if \<not> truthy category_name then (None, db)
      else case find (\<lambda>r. r ''name'' = category_name) (categories db) of
             Some category \<Rightarrow> (Some category, db)
           | None \<Rightarrow>
               (case upsert_category now (stub_data category_name) db of
                  (Inl e, db') \<Rightarrow> (None, db')
                | (Inr (category, created), db') \<Rightarrow> (Some category, db')))"

definition get_or_create_brand_by_name ::
  "int \<Rightarrow> pyval \<Rightarrow> database \<Rightarrow> row option \<times> database" where
  "get_or_create_brand_by_name now brand_name db =
     (if \<not> truthy brand_name then (None, db)
      else case find (\<lambda>r. r ''name'' = brand_name) (brands db) of
             Some brand \<Rightarrow> (Some brand, db)
           | None \<Rightarrow>
               (case upsert_brand now (stub_data brand_name) db of
                  (Inl e, db') \<Rightarrow> (None, db')
                | (Inr (brand, created), db') \<Rightarrow> (Some brand, db')))"

text \<open>The \<open>if product_data.get('category_name'):\<close> and \<open>if product_data.get('brand_name'):\<close>
  blocks of \<open>upsert_product\<close>.\<close>

definition resolve_category :: "int \<Rightarrow> payload \<Rightarrow> database \<Rightarrow> row option \<times> database" where
  "resolve_category now product_data db =
     (if truthy (dict_get product_data ''category_name'' PNone)
      then get_or_create_category_by_name now (dict_get product_data ''category_name'' PNone) db
      else (None, db))"

definition resolve_brand :: "int \<Rightarrow> payload \<Rightarrow> database \<Rightarrow> row option \<times> database" where
  "resolve_brand now product_data db =
     (if truthy (dict_get product_data ''brand_name'' PNone)
      then get_or_create_brand_by_name now (dict_get product_data ''brand_name'' PNone) db
      else (None, db))"

text \<open>The row built by \<open>Product(...)\<close> in the create branch.\<close>

definition new_product :: "int \<Rightarrow> int \<Rightarrow> pyval \<Rightarrow> pyval \<Rightarrow> pyval \<Rightarrow> payload \<Rightarrow>
    row option \<Rightarrow> row option \<Rightarrow> row" where
  "new_product now pid name slug url product_data category brand =
     mk_row
       [(''id'', PInt pid), (''name'', name), (''slug'', slug), (''url'', url),
        (''description'', dict_get product_data ''description'' (PStr [])),
        (''price'', dict_get product_data ''price'' PNone),
        (''original_price'', dict_get product_data ''original_price'' PNone),
        (''discount_percentage'', dict_get product_data ''discount_percentage'' PNone),
        (''sku'', dict_get product_data ''sku'' (PStr [])),
        (''availability'', dict_get product_data ''availability'' (PStr (u ''unknown''))),
        (''rating'', dict_get product_data ''rating'' PNone),
        (''review_count'', dict_get product_data ''review_count'' (PInt 0)),
        (''image_url'', dict_get product_data ''image_url'' (PStr [])),
        (''images'', dict_get product_data ''images'' (PStr [])),
        (''ingredients'', dict_get product_data ''ingredients'' (PStr [])),
        (''usage_instructions'', dict_get product_data ''usage_instructions'' (PStr [])),
        (''category_id'', case category of None \<Rightarrow> PNone | Some c \<Rightarrow> c ''id''),
        (''brand_id'', case brand of None \<Rightarrow> PNone | Some b \<Rightarrow> b ''id''),
        (''is_featured'', dict_get product_data ''is_featured'' (PBool False)),
        (''is_bestseller'', dict_get product_data ''is_bestseller'' (PBool False)),
        (''is_new'', dict_get product_data ''is_new'' (PBool False)),
        (''is_sale'', dict_get product_data ''is_sale'' (PBool False)),
        (''created_at'', PInt now), (''updated_at'', PInt now)]"

text \<open>
  \<open>DatabaseManager.upsert_product\<close>.  In the update branch the overwritten fields are
  pending when the category is looked up; the session flushes them before that
  query, so a constraint they break is met first (the exception then resurfaces at
  the commit and nothing is written).  The nested category and brand upserts commit
  on their own: what they created stays when the product itself fails afterwards.
\<close>

definition upsert_product ::
  "int \<Rightarrow> payload \<Rightarrow> database \<Rightarrow> (py_error + row \<times> bool) \<times> database" where
  "upsert_product now product_data db =
     (case (product_data ''slug'', product_data ''url'') of
        (Some slug, Some url) \<Rightarrow>
          (case first_index (\<lambda>r. r ''slug'' = slug \<or> r ''url'' = url) (products db) of
             Some i \<Rightarrow>
               (let existing_product = products db ! i;
                    r1 = overwrite product_columns [''slug'', ''category_id'', ''brand_id'']
                           (\<lambda>v. v \<noteq> PNone) product_data existing_product
                in if violates product_not_null product_unique r1 (others i (products db))
                   then (Inl SQLAlchemyError, db)
                   else
                     (let (category, db1) = resolve_category now product_data db;
                          r2 = (case category of None \<Rightarrow> r1
                                | Some c \<Rightarrow> r1(''category_id'' := c ''id''));
                          (brand, db2) = resolve_brand now product_data db1;
                          r3 = (case brand of None \<Rightarrow> r2 | Some b \<Rightarrow> r2(''brand_id'' := b ''id''));
                          r4 = r3(''updated_at'' := PInt now)
                      in if violates product_not_null product_unique r4
                              (others i (products db2))
                         then (Inl SQLAlchemyError, db2)
                         else (Inr (r4, False), db2\<lparr>products := (products db2)[i := r4]\<rparr>)))
           | None \<Rightarrow>
               (let (category, db1) = resolve_category now product_data db;
                    (brand, db2) = resolve_brand now product_data db1
                in case product_data ''name'' of
                     None \<Rightarrow> (Inl KeyError, db2)
                   | Some name \<Rightarrow>
                       (let product = new_product now (new_id (products db2)) name slug url
                              product_data category brand
                        in if violates product_not_null product_unique product (products db2)
                           then (Inl SQLAlchemyError, db2)
                           else (Inr (product, True),
                                 db2\<lparr>products := products db2 @ [product]\<rparr>))))
      | _ \<Rightarrow> (Inl KeyError, db))"

subsection \<open>Bulk upsert\<close>

record bulk_stats =
  total :: nat
  created :: nat
  updated :: nat
  errors :: nat

text \<open>The loop of \<open>bulk_upsert_products\<close>: an exception of one upsert is counted and
  the loop continues with the next record.\<close>

fun bulk_loop :: "int \<Rightarrow> payload list \<Rightarrow> bulk_stats \<Rightarrow> database \<Rightarrow> bulk_stats \<times> database" where
  "bulk_loop now [] stats db = (stats, db)"
| "bulk_loop now (product_data # rest) stats db =
     (case upsert_product now product_data db of
        (Inr (product, was_created), db') \<Rightarrow>
          bulk_loop now rest
            (if was_created then stats\<lparr>created := created stats + 1\<rparr>
             else stats\<lparr>updated := updated stats + 1\<rparr>) db'
      | (Inl e, db') \<Rightarrow> bulk_loop now rest (stats\<lparr>errors := errors stats + 1\<rparr>) db')"

definition bulk_upsert_products :: "int \<Rightarrow> payload list \<Rightarrow> database \<Rightarrow> bulk_stats \<times> database" where
  "bulk_upsert_products now products_data db =
     bulk_loop now products_data
       \<lparr>total = length products_data, created = 0, updated = 0, errors = 0\<rparr> db"

definition empty_database :: database where
  "empty_database = \<lparr>categories = [], brands = [], products = [], crawl_sessions = []\<rparr>"

subsection \<open>Well-formed tables and sample data\<close>

text \<open>What the schema guarantees of the categories table that the product upsert
  relies on: key, name, slug and url are never NULL, keys and slugs do not repeat.\<close>

definition wf_categories :: "row list \<Rightarrow> bool" where
  "wf_categories rows \<longleftrightarrow>
     list_all (\<lambda>r. list_all (\<lambda>c. r c \<noteq> PNone) category_not_null) rows \<and>
     distinct (map (\<lambda>r. r ''id'') rows) \<and> distinct (map (\<lambda>r. r ''slug'') rows)"

text \<open>\<open>validate_normalized_product\<close>, as far as the required fields go: name, slug
  and url are present and non-empty (the URL syntax check is left out).\<close>

definition valid_product :: "payload \<Rightarrow> bool" where
  "valid_product p \<longleftrightarrow>
     truthy (dict_get p ''name'' PNone) \<and> truthy (dict_get p ''slug'' PNone) \<and>
     truthy (dict_get p ''url'' PNone)"

text \<open>No stored product has the slug or the url of the payload.\<close>

definition unseen_product :: "payload \<Rightarrow> database \<Rightarrow> bool" where
  "unseen_product p db \<longleftrightarrow>
     list_all (\<lambda>r. r ''slug'' \<noteq> dict_get p ''slug'' PNone \<and>
                    r ''url'' \<noteq> dict_get p ''url'' PNone) (products db)"

definition sample_product :: payload where
  "sample_product =
     [''name'' \<mapsto> PStr (u ''Son''), ''slug'' \<mapsto> PStr (u ''son''),
      ''url'' \<mapsto> PStr (u ''/san-pham/son''), ''description'' \<mapsto> PStr (u ''Son li''),
      ''price'' \<mapsto> PFloat 299000, ''category_name'' \<mapsto> PStr (u ''Son'')]"

definition sample_product_no_category :: payload where
  "sample_product_no_category =
     [''name'' \<mapsto> PStr (u ''Son''), ''slug'' \<mapsto> PStr (u ''son''),
      ''url'' \<mapsto> PStr (u ''/san-pham/son''), ''category_name'' \<mapsto> PStr []]"









section \<open>Crawl sessions and the orchestrator\<close>

subsection \<open>Session bookkeeping\<close>

text \<open>The statistics dictionary, as far as its integer counters go; the empty list is
  the falsy value of \<open>if stats:\<close>.\<close>

type_synonym stats = "(string \<times> int) list"

definition stats_get :: "stats \<Rightarrow> string \<Rightarrow> int" where
  "stats_get st k = (case map_of st k of None \<Rightarrow> 0 | Some v \<Rightarrow> v)"

definition new_session_id :: "crawl_session list \<Rightarrow> int" where
  "new_session_id ss = 1 + fold max (map cs_id ss) 0"

text \<open>\<open>DatabaseManager.start_crawl_session\<close>: a row with the column defaults of the
  model.\<close>

definition start_crawl_session :: "int \<Rightarrow> database \<Rightarrow> crawl_session \<times> database" where
  "start_crawl_session now db =
     (let crawl_session =
            \<lparr>cs_id = new_session_id (crawl_sessions db), started_at = now,
             finished_at = None, status = ''running'', categories_found = 0,
             products_found = 0, products_updated = 0, products_created = 0,
             cs_errors = None\<rparr>
      in (crawl_session, db\<lparr>crawl_sessions := crawl_sessions db @ [crawl_session]\<rparr>))"

text \<open>\<open>DatabaseManager.finish_crawl_session\<close>: nothing happens when no row has the
  identity; the method raises nothing.\<close>

definition finish_crawl_session ::
  "int \<Rightarrow> int \<Rightarrow> string \<Rightarrow> stats \<Rightarrow> ustr option \<Rightarrow> database \<Rightarrow> database" where
  "finish_crawl_session now crawl_session_id new_status st errs db =
     (case first_index (\<lambda>s. cs_id s = crawl_session_id) (crawl_sessions db) of
        None \<Rightarrow> db
      | Some i \<Rightarrow>
          (let s0 = crawl_sessions db ! i;
               s1 = s0\<lparr>finished_at := Some now, status := new_status\<rparr>;
               s2 = (if st \<noteq> []
                     then s1\<lparr>categories_found := stats_get st ''categories_found'',
                             products_found := stats_get st ''products_found'',
                             products_created := stats_get st ''products_created'',
                             products_updated := stats_get st ''products_updated''\<rparr>
                     else s1);
               s3 = (case errs of
                       None \<Rightarrow> s2
                     | Some text \<Rightarrow> if text \<noteq> [] then s2\<lparr>cs_errors := Some text\<rparr> else s2)
           in db\<lparr>crawl_sessions := (crawl_sessions db)[i := s3]\<rparr>))"

text \<open>\<open>session.query(CrawlSession).get(id)\<close>.\<close>

definition get_crawl_session :: "database \<Rightarrow> int \<Rightarrow> crawl_session option" where
  "get_crawl_session db sid = find (\<lambda>s. cs_id s = sid) (crawl_sessions db)"

subsection \<open>The three entry points\<close>

text \<open>
  \<open>str(e)\<close> of an escaping exception.  \<open>OtherError\<close> carries its message; for the
  exception classes modelled without one, the class name stands for the message.
\<close>

fun error_text :: "py_error \<Rightarrow> ustr" where
  "error_text (OtherError msg) = msg"
| "error_text KeyError = u ''KeyError''"
| "error_text ValueError = u ''ValueError''"
| "error_text AttributeError = u ''AttributeError''"
| "error_text ZeroDivisionError = u ''ZeroDivisionError''"
| "error_text SQLAlchemyError = u ''SQLAlchemyError''"

text \<open>
  The body of the \<open>try\<close> block of an entry point -- category discovery, page parsing,
  persistence, export -- depends on the network and the file system.  It is a
  parameter: a function of the database and of the statistics that either completes
  or lets an exception escape.
\<close>

type_synonym crawl_steps = "database \<Rightarrow> stats \<Rightarrow> (py_error + unit) \<times> database \<times> stats"

record crawler =
  db_manager :: database
  crawler_stats :: stats
  crawl_session_id :: "int option"

definition initial_stats :: stats where
  "initial_stats =
     [(''categories_found'', 0), (''categories_processed'', 0), (''products_found'', 0),
      (''products_processed'', 0), (''products_created'', 0), (''products_updated'', 0),
      (''errors'', 0)]"

text \<open>
  The frame shared by \<open>full_crawl\<close>, \<open>incremental_crawl\<close> and \<open>crawl_category\<close>: start a
  session (outside the \<open>try\<close>), run the steps, finish the session as completed and
  return the statistics, or, in the handler, finish it as failed with \<open>str(e)\<close> and
  raise again.  \<open>t0\<close> and \<open>t1\<close> are the clock readings at start and finish.
\<close>

definition run_crawl ::
  "int \<Rightarrow> int \<Rightarrow> crawl_steps \<Rightarrow> crawler \<Rightarrow> (py_error + stats) \<times> crawler" where
  "run_crawl t0 t1 steps self =
     (let (crawl_session, db1) = start_crawl_session t0 (db_manager self);
          sid = cs_id crawl_session;
          (outcome, db2, st2) = steps db1 (crawler_stats self)
      in case outcome of
           Inr done \<Rightarrow>
             (Inr st2,
              \<lparr>db_manager = finish_crawl_session t1 sid ''completed'' st2 None db2,
               crawler_stats = st2, crawl_session_id = Some sid\<rparr>)
         | Inl e \<Rightarrow>
             (Inl e,
              \<lparr>db_manager = finish_crawl_session t1 sid ''failed'' st2
                              (Some (error_text e)) db2,
               crawler_stats = st2, crawl_session_id = Some sid\<rparr>))"

definition full_crawl ::
  "int \<Rightarrow> int \<Rightarrow> crawl_steps \<Rightarrow> crawler \<Rightarrow> (py_error + stats) \<times> crawler" where
  "full_crawl t0 t1 steps self = run_crawl t0 t1 steps self"

definition incremental_crawl ::
  "int \<Rightarrow> int \<Rightarrow> crawl_steps \<Rightarrow> crawler \<Rightarrow> (py_error + stats) \<times> crawler" where
  "incremental_crawl t0 t1 steps self = run_crawl t0 t1 steps self"

text \<open>\<open>crawl_category\<close> first looks the category up by slug and raises a
  \<open>ValueError\<close> with a message when there is none.\<close>

definition category_not_found :: "ustr \<Rightarrow> py_error" where
  "category_not_found category_slug =
     OtherError (u ''Category '' @ [39] @ category_slug @ [39] @ u '' not found in database'')"

definition crawl_category_steps :: "ustr \<Rightarrow> (row \<Rightarrow> crawl_steps) \<Rightarrow> crawl_steps" where
  "crawl_category_steps category_slug steps db st =
     (case find (\<lambda>r. r ''slug'' = PStr category_slug) (categories db) of
        None \<Rightarrow> (Inl (category_not_found category_slug), db, st)
      | Some category \<Rightarrow> steps category db st)"

definition crawl_category ::
  "int \<Rightarrow> int \<Rightarrow> ustr \<Rightarrow> (row \<Rightarrow> crawl_steps) \<Rightarrow> crawler \<Rightarrow> (py_error + stats) \<times> crawler" where
  "crawl_category t0 t1 category_slug steps self =
     run_crawl t0 t1 (crawl_category_steps category_slug steps) self"

text \<open>The steps of an entry point write categories, brands and products; they never
  touch the crawl sessions.\<close>

definition keeps_sessions :: "crawl_steps \<Rightarrow> bool" where
  "keeps_sessions steps \<longleftrightarrow>
     (\<forall>db st. crawl_sessions (fst (snd (steps db st))) = crawl_sessions db)"

text \<open>The session of a run, read back afterwards, is in a final state.\<close>

definition session_final :: "int \<Rightarrow> crawl_session \<Rightarrow> bool" where
  "session_final t1 s \<longleftrightarrow>
     finished_at s = Some t1 \<and> (status s = ''completed'' \<or> status s = ''failed'')"

definition new_crawler :: crawler where
  "new_crawler =
     \<lparr>db_manager = empty_database, crawler_stats = initial_stats, crawl_session_id = None\<rparr>"

text \<open>
  What the specification asks of a run \<open>result\<close> of an entry point with the given
  steps: the session the run started is stored in a final state, and when the steps
  let an exception escape the session is failed, carries the text of the exception
  (unless that text is empty, which \<open>if errors:\<close> skips) and the run raises the same
  exception; otherwise the session is completed and the run returns.
\<close>

definition run_leaves_final ::
  "int \<Rightarrow> int \<Rightarrow> crawler \<Rightarrow> crawl_steps \<Rightarrow> (py_error + stats) \<times> crawler \<Rightarrow> bool" where
  "run_leaves_final t0 t1 self steps result \<longleftrightarrow>
     (\<exists>s. get_crawl_session (db_manager (snd result))
             (new_session_id (crawl_sessions (db_manager self))) = Some s \<and>
          session_final t1 s \<and>
          (case fst (steps (snd (start_crawl_session t0 (db_manager self)))
                       (crawler_stats self)) of
             Inl e \<Rightarrow> fst result = Inl e \<and> status s = ''failed'' \<and>
                      cs_errors s = (if error_text e \<noteq> [] then Some (error_text e) else None)
           | Inr finished \<Rightarrow> \<not> isl (fst result) \<and> status s = ''completed''))"

text \<open>Steps that do nothing and complete.\<close>

definition idle_steps :: crawl_steps where
  "idle_steps db st = (Inr (), db, st)"

section \<open>The SQL exporter\<close>

text \<open>The relationship \<open>Category.parent\<close>: the category whose key is \<open>parent_id\<close>, if
  the column is set and such a row exists.\<close>

definition parent_of :: "database \<Rightarrow> row \<Rightarrow> row option" where
  "parent_of db cat =
     (if cat ''parent_id'' = PNone then None
      else find (\<lambda>r. r ''id'' = cat ''parent_id'') (categories db))"

text \<open>
  The loop \<open>while current: categories_to_insert.insert(0, current); current =
  current.parent\<close>.  Nothing in the schema prevents a cycle of parents, on which the
  loop does not end; the function counts its iterations down from \<open>fuel\<close> and answers
  \<open>None\<close> when they do not suffice.
\<close>

fun collect_categories ::
  "nat \<Rightarrow> (row \<Rightarrow> row option) \<Rightarrow> row option \<Rightarrow> row list \<Rightarrow> row list option" where
  "collect_categories fuel parent None categories_to_insert = Some categories_to_insert"
| "collect_categories 0 parent (Some current) categories_to_insert = None"
| "collect_categories (Suc fuel) parent (Some current) categories_to_insert =
     collect_categories fuel parent (parent current) (current # categories_to_insert)"

text \<open>
  The exported file as the sequence of its pieces in the order they are written.
  The text of a statement is left to the formatter; a piece records which row it
  inserts (for a category also the \<open>parent_id\<close> it prints, \<open>PNone\<close> for \<open>NULL\<close>).
\<close>

datatype sql_piece =
    Header row int nat
  | CreateTables
  | Comment string
  | CategoryInsert row pyval
  | BrandInsert row
  | ProductInsert row

definition category_insert :: "database \<Rightarrow> row \<Rightarrow> sql_piece" where
  "category_insert db cat =
     CategoryInsert cat (case parent_of db cat of None \<Rightarrow> PNone | Some p \<Rightarrow> p ''id'')"

text \<open>\<open>SQLExporter._generate_category_insert_sql\<close>: one statement per collected
  category, joined in list order.\<close>

definition generate_category_insert_sql ::
  "nat \<Rightarrow> database \<Rightarrow> row \<Rightarrow> sql_piece list option" where
  "generate_category_insert_sql fuel db category =
     map_option (map (category_insert db))
       (collect_categories fuel (parent_of db) (Some category) [])"

text \<open>The brands of the exported products, each once.  The source collects them in
  a Python set, whose iteration order is not specified; here they come in order of
  first appearance.\<close>

definition brand_of :: "database \<Rightarrow> row \<Rightarrow> row option" where
  "brand_of db product =
     (if product ''brand_id'' = PNone then None
      else find (\<lambda>r. r ''id'' = product ''brand_id'') (brands db))"

fun distinct_brands :: "row list \<Rightarrow> row list" where
  "distinct_brands [] = []"
| "distinct_brands (b # bs) =
     b # distinct_brands (filter (\<lambda>r. r ''id'' \<noteq> b ''id'') bs)"

definition export_brands :: "database \<Rightarrow> row list \<Rightarrow> row list" where
  "export_brands db prods = distinct_brands (List.map_filter (brand_of db) prods)"

text \<open>\<open>SQLExporter._write_products_sql_file\<close>: header, schema, the category with its
  ancestors, the brands (when there are any), the products.\<close>

definition write_products_sql_file ::
  "nat \<Rightarrow> int \<Rightarrow> database \<Rightarrow> row list \<Rightarrow> row \<Rightarrow> sql_piece list option" where
  "write_products_sql_file fuel now db prods category =
     (case generate_category_insert_sql fuel db category of
        None \<Rightarrow> None
      | Some category_sql \<Rightarrow>
          Some ([Header category now (length prods), Comment ''Create tables if they don't exist'',
                 CreateTables, Comment ''Insert category data''] @
                category_sql @
                (if export_brands db prods \<noteq> []
                 then Comment ''Insert brand data'' # map BrandInsert (export_brands db prods)
                 else []) @
                [Comment ''Insert product data''] @ map ProductInsert prods @
                [Comment ''End of export'']))"

text \<open>A list of categories in which every row is preceded directly by its parent.\<close>

fun parent_chain :: "(row \<Rightarrow> row option) \<Rightarrow> row list \<Rightarrow> bool" where
  "parent_chain parent (a # b # cs) = (parent b = Some a \<and> parent_chain parent (b # cs))"
| "parent_chain parent cs = True"

definition is_category_insert :: "sql_piece \<Rightarrow> bool" where
  "is_category_insert piece = (case piece of CategoryInsert r p \<Rightarrow> True | _ \<Rightarrow> False)"

text \<open>Two categories, the second a child of the first.\<close>

definition root_category :: row where
  "root_category =
     mk_row [(''id'', PInt 1), (''name'', PStr (u ''Son moi'')), (''slug'', PStr (u ''son-moi'')),
             (''url'', PStr (u ''/danh-muc/son-moi'')), (''parent_id'', PNone),
             (''description'', PStr []), (''created_at'', PInt 0), (''updated_at'', PInt 0)]"

definition child_category :: row where
  "child_category =
     mk_row [(''id'', PInt 2), (''name'', PStr (u ''Son li'')), (''slug'', PStr (u ''son-li'')),
             (''url'', PStr (u ''/danh-muc/son-moi/son-li'')), (''parent_id'', PInt 1),
             (''description'', PStr []), (''created_at'', PInt 0), (''updated_at'', PInt 0)]"

definition tree_database :: database where
  "tree_database =
     \<lparr>categories = [root_category, child_category], brands = [], products = [],
      crawl_sessions = []\<rparr>"

section \<open>Discount computation\<close>

lemmas price_eval_defs =
  parse_price_def py_strip_def strip_chars_def is_space_def u_def price_clean_def
  py_float_def is_digit_def digits_value_def










section \<open>Price normalization\<close>

lemma normalize_price_comma_dong:
  "normalize_price (PStr (u ''299,000'' @ [273])) = Some 299000"
  by (simp add: normalize_price_def price_eval_defs)

lemma normalize_price_negative:
  "i < 0 \<Longrightarrow> normalize_price (PInt i) = None"
  "x < 0 \<Longrightarrow> normalize_price (PFloat x) = None"
  by (simp_all add: normalize_price_def)

lemma price_clean_no_digit:
  assumes "\<forall>c \<in> set s. \<not> is_digit c"
  shows "set (price_clean s) \<subseteq> {46}"
  using assms by (auto simp: price_clean_def)

lemma py_float_periods:
  assumes "set pc \<subseteq> {46}"
  shows "py_float pc = None"
proof (cases pc)
  case Nil
  then show ?thesis by (simp add: py_float_def)
next
  case (Cons c fp)
  with assms have c: "c = 46" and fp: "set fp \<subseteq> {46}" by auto
  have nd: "\<not> is_digit 46" by (simp add: is_digit_def)
  have "list_all is_digit fp \<Longrightarrow> fp = []"
    using fp nd by (cases fp) auto
  then show ?thesis
    using Cons c nd by (auto simp: py_float_def)
qed

lemma normalize_price_no_digit:
  assumes "\<forall>c \<in> set s. \<not> is_digit c"
  shows "normalize_price (PStr s) = None"
  using py_float_periods [OF price_clean_no_digit [OF assms]]
  by (simp add: normalize_price_def Let_def)

text \<open>
  Claim C3 at the input \<open>"450.000 VND"\<close>: the cleaner keeps \<open>450.000\<close> and
  \<open>float\<close> reads the period as a decimal point, so \<open>normalize_price\<close> and the
  parsers' \<open>_parse_price\<close> return 450.0 where the claim (and the repository's tests)
  expect 450000.0.  The remaining parts of the claim hold
  (\<open>normalize_price_comma_dong\<close>, \<open>normalize_price_negative\<close>,
  \<open>normalize_price_no_digit\<close>).
\<close>

theorem normalize_price_period_thousands:
  "normalize_price (PStr (u ''450.000 VND'')) = Some 450 \<and>
   parse_price (u ''450.000 VND'') = Some 450"
  by (simp add: normalize_price_def price_eval_defs)

section \<open>Slug normalization\<close>

subsection \<open>Code points\<close>







subsection \<open>The transliteration loop\<close>



subsection \<open>Stripping and collapsing\<close>










lemma collapse_seps_hd:
  "\<not> slug_sep a \<Longrightarrow> collapse_seps (a # as) = a # collapse_seps as"
  by simp




subsection \<open>One pass produces a finished slug, and a finished slug is left alone\<close>











subsection \<open>The claims about \<open>normalize_slug\<close>\<close>










section \<open>Whole-record normalization\<close>





section \<open>Upserts\<close>

subsection \<open>Lists and rows\<close>

lemma first_index_None: "first_index P xs = None \<longleftrightarrow> (\<forall>x \<in> set xs. \<not> P x)"
  by (induction xs) auto

lemma first_index_Some:
  "first_index P xs = Some i \<Longrightarrow> i < length xs \<and> P (xs ! i) \<and> (\<forall>j < i. \<not> P (xs ! j))"
proof (induction xs arbitrary: i)
  case Nil
  then show ?case by simp
next
  case (Cons x xs)
  show ?case
  proof (cases "P x")
    case True
    with Cons.prems show ?thesis by simp
  next
    case False
    with Cons.prems obtain k where k: "first_index P xs = Some k" "i = Suc k" by auto
    from Cons.IH [OF k(1)] False k(2) show ?thesis by (auto simp: less_Suc_eq_0_disj)
  qed
qed

lemma first_index_snoc:
  assumes "\<forall>x \<in> set xs. \<not> P x" and "P y"
  shows "first_index P (xs @ [y]) = Some (length xs)"
  using assms by (induction xs) auto


lemma set_others: "set (others i rows) \<subseteq> set rows"
  unfolding others_def using set_take_subset [of i rows] set_drop_subset [of "Suc i" rows]
  by auto

lemma distinct_others:
  assumes "distinct (map f rows)" and "i < length rows" and "other \<in> set (others i rows)"
  shows "f other \<noteq> f (rows ! i)"
proof -
  from assms(2) have "rows = take i rows @ rows ! i # drop (Suc i) rows"
    by (rule id_take_nth_drop)
  then have "map f rows = map f (take i rows) @ f (rows ! i) # map f (drop (Suc i) rows)"
    by (metis list.simps(9) map_append)
  with assms(1) have "distinct (map f (take i rows) @ f (rows ! i) # map f (drop (Suc i) rows))"
    by simp
  then have "f (rows ! i) \<notin> set (map f (take i rows)) \<and>
             f (rows ! i) \<notin> set (map f (drop (Suc i) rows))" by auto
  with assms(3) show ?thesis by (auto simp: others_def image_iff)
qed

lemma fold_max_ge: "(m::int) \<le> fold max xs m"
  by (induction xs arbitrary: m) (auto intro: order_trans [OF max.cobounded2])

lemma fold_max_mem: "(x::int) \<in> set xs \<Longrightarrow> x \<le> fold max xs m"
proof (induction xs arbitrary: m)
  case Nil
  then show ?case by simp
next
  case (Cons a xs)
  show ?case
  proof (cases "x = a")
    case True
    have "a \<le> max a m" by simp
    also have "\<dots> \<le> fold max xs (max a m)" by (rule fold_max_ge)
    finally show ?thesis using True by simp
  next
    case False
    with Cons show ?thesis by simp
  qed
qed

lemma new_id_fresh:
  assumes "r \<in> set rows"
  shows "r ''id'' \<noteq> PInt (new_id rows)"
proof
  assume e: "r ''id'' = PInt (new_id rows)"
  then have "id_of r = new_id rows" by (simp add: id_of_def)
  moreover from assms have "id_of r \<le> fold max (map id_of rows) 0"
    by (intro fold_max_mem) simp
  ultimately show False by (simp add: new_id_def)
qed

lemma find_None_iff2: "find P xs = None \<longleftrightarrow> (\<forall>x \<in> set xs. \<not> P x)"
  by (induction xs) auto

lemma find_Some_mem: "find P xs = Some x \<Longrightarrow> x \<in> set xs \<and> P x"
  by (induction xs) (auto split: if_splits)

subsection \<open>The nested category and brand upserts\<close>

lemma upsert_category_frame:
  assumes "upsert_category now d db = (res, db')"
  shows "products db' = products db \<and> brands db' = brands db \<and>
         crawl_sessions db' = crawl_sessions db"
  using assms
  by (auto simp: upsert_category_def Let_def split: option.splits if_splits prod.splits)

lemma upsert_brand_frame:
  assumes "upsert_brand now d db = (res, db')"
  shows "products db' = products db \<and> categories db' = categories db \<and>
         crawl_sessions db' = crawl_sessions db"
  using assms
  by (auto simp: upsert_brand_def Let_def split: option.splits if_splits prod.splits)

lemma truthy_not_None: "truthy v \<Longrightarrow> v \<noteq> PNone"
  by auto

lemma wf_categories_nth:
  assumes "wf_categories rows" and "r \<in> set rows"
  shows "r ''id'' \<noteq> PNone" "r ''name'' \<noteq> PNone" "r ''slug'' \<noteq> PNone" "r ''url'' \<noteq> PNone"
  using assms by (auto simp: wf_categories_def list_all_iff category_not_null_def)

lemma stub_update_values:
  fixes existing :: row
  defines "upd \<equiv> \<lambda>now n. (overwrite category_columns [''slug''] truthy (stub_data n) existing)
                     (''updated_at'' := PInt now)"
  assumes "truthy n"
  shows "upd now n ''id'' = existing ''id''" "upd now n ''name'' = n"
        "upd now n ''slug'' = existing ''slug''" "upd now n ''url'' = existing ''url''"
  using assms(2) by (simp_all add: upd_def overwrite_def stub_data_def category_columns_def)

lemma stub_category_update:
  assumes wf: "wf_categories (categories db)" and t: "truthy n"
    and nf: "\<forall>r \<in> set (categories db). r ''name'' \<noteq> n"
    and i: "first_index (\<lambda>r. r ''slug'' = PStr (normalize_slug n)) (categories db) = Some i"
  shows "\<exists>c db'. upsert_category now (stub_data n) db = (Inr (c, False), db') \<and>
           c ''id'' \<noteq> PNone \<and> wf_categories (categories db') \<and>
           products db' = products db"
proof -
  let ?rows = "categories db"
  let ?upd = "(overwrite category_columns [''slug''] truthy (stub_data n) (?rows ! i))
                (''updated_at'' := PInt now)"
  from first_index_Some [OF i] have il: "i < length ?rows" by simp
  then have mem: "?rows ! i \<in> set ?rows" by simp
  note vals = stub_update_values [OF t, of "?rows ! i" now]
  note ex = wf_categories_nth [OF wf mem]
  from wf have did: "distinct (map (\<lambda>r. r ''id'') ?rows)"
    and dsl: "distinct (map (\<lambda>r. r ''slug'') ?rows)" by (simp_all add: wf_categories_def)
  have nn: "\<not> list_ex (\<lambda>c. ?upd c = PNone) category_not_null"
    unfolding category_not_null_def list_ex_Cons_iff list_ex_Nil_iff vals
    using ex truthy_not_None [OF t] by simp
  have uq: "\<not> list_ex (\<lambda>c. ?upd c \<noteq> PNone \<and> list_ex (\<lambda>other. other c = ?upd c)
                (others i ?rows)) category_unique"
  proof -
    have "other ''id'' \<noteq> (?rows ! i) ''id''" "other ''slug'' \<noteq> (?rows ! i) ''slug''"
      "other ''name'' \<noteq> n" if "other \<in> set (others i ?rows)" for other
      using that distinct_others [OF did il that] distinct_others [OF dsl il that]
        nf set_others [of i ?rows] by auto
    then show ?thesis
      unfolding category_unique_def list_ex_Cons_iff list_ex_Nil_iff vals by (auto simp: list_ex_iff)
  qed
  from nn uq have nv: "\<not> violates category_not_null category_unique ?upd (others i ?rows)"
    by (simp add: violates_def)
  have res: "upsert_category now (stub_data n) db =
      (Inr (?upd, False), db\<lparr>categories := ?rows[i := ?upd]\<rparr>)"
    using i nv by (simp add: upsert_category_def Let_def stub_data_def)
  have "wf_categories (?rows[i := ?upd])"
  proof -
    have "list_all (\<lambda>c. ?upd c \<noteq> PNone) category_not_null"
      using nn by (simp add: list_all_iff list_ex_iff)
    moreover have "list_all (\<lambda>r. list_all (\<lambda>c. r c \<noteq> PNone) category_not_null) ?rows"
      using wf by (simp add: wf_categories_def)
    ultimately have 1: "list_all (\<lambda>r. list_all (\<lambda>c. r c \<noteq> PNone) category_not_null)
        (?rows[i := ?upd])"
      using set_update_subset_insert [of ?rows i ?upd] by (auto simp: list_all_iff)
    have 2: "map (\<lambda>r. r ''id'') (?rows[i := ?upd]) = map (\<lambda>r. r ''id'') ?rows"
      using il vals(1) by (simp add: map_update list_update_same_conv)
    have 3: "map (\<lambda>r. r ''slug'') (?rows[i := ?upd]) = map (\<lambda>r. r ''slug'') ?rows"
      using il vals(3) by (simp add: map_update list_update_same_conv)
    from 1 did dsl show ?thesis unfolding wf_categories_def 2 3 by simp
  qed
  moreover have "?upd ''id'' \<noteq> PNone" unfolding vals using ex by simp
  ultimately show ?thesis using res by simp
qed

lemma stub_category_create:
  assumes wf: "wf_categories (categories db)" and t: "truthy n"
    and nf: "\<forall>r \<in> set (categories db). r ''name'' \<noteq> n"
    and i: "first_index (\<lambda>r. r ''slug'' = PStr (normalize_slug n)) (categories db) = None"
  shows "\<exists>c db'. upsert_category now (stub_data n) db = (Inr (c, True), db') \<and>
           c ''id'' \<noteq> PNone \<and> wf_categories (categories db') \<and>
           products db' = products db"
proof -
  let ?rows = "categories db"
  let ?new = "mk_row [(''id'', PInt (new_id ?rows)), (''name'', n),
      (''slug'', PStr (normalize_slug n)), (''url'', PStr []), (''parent_id'', PNone),
      (''description'', PStr []), (''created_at'', PInt now), (''updated_at'', PInt now)]"
  have vals: "?new ''id'' = PInt (new_id ?rows)" "?new ''name'' = n"
    "?new ''slug'' = PStr (normalize_slug n)" "?new ''url'' = PStr []"
    by (simp_all add: mk_row_def)
  from i have ns: "\<forall>r \<in> set ?rows. r ''slug'' \<noteq> PStr (normalize_slug n)"
    by (simp add: first_index_None)
  have nn: "list_all (\<lambda>c. ?new c \<noteq> PNone) category_not_null"
    unfolding category_not_null_def list_all_Cons_iff list_all_Nil_iff vals
    using truthy_not_None [OF t] by simp
  have uq: "\<not> list_ex (\<lambda>c. ?new c \<noteq> PNone \<and> list_ex (\<lambda>other. other c = ?new c) ?rows)
      category_unique"
    unfolding category_unique_def list_ex_Cons_iff list_ex_Nil_iff vals
    using new_id_fresh [of _ ?rows] nf ns by (auto simp: list_ex_iff)
  from nn uq have nv: "\<not> violates category_not_null category_unique ?new ?rows"
    by (simp add: violates_def list_all_iff list_ex_iff)
  have res: "upsert_category now (stub_data n) db =
      (Inr (?new, True), db\<lparr>categories := ?rows @ [?new]\<rparr>)"
    using i nv by (simp add: upsert_category_def Let_def stub_data_def dict_get_def)
  have "wf_categories (?rows @ [?new])"
  proof -
    have 1: "?new ''id'' \<notin> set (map (\<lambda>r. r ''id'') ?rows)"
    proof
      assume "?new ''id'' \<in> set (map (\<lambda>r. r ''id'') ?rows)"
      then obtain r where "r \<in> set ?rows" "r ''id'' = PInt (new_id ?rows)"
        unfolding vals by auto
      with new_id_fresh show False by blast
    qed
    have 2: "?new ''slug'' \<notin> set (map (\<lambda>r. r ''slug'') ?rows)"
      unfolding vals using ns by auto
    from wf nn 1 2 show ?thesis
      unfolding wf_categories_def by simp
  qed
  then show ?thesis using res by (simp add: vals)
qed

lemma resolve_category_ok:
  assumes wf: "wf_categories (categories db)"
    and t: "truthy (dict_get p ''category_name'' PNone)"
  shows "\<exists>c db'. resolve_category now p db = (Some c, db') \<and> c ''id'' \<noteq> PNone \<and>
           wf_categories (categories db') \<and> products db' = products db"
proof -
  let ?n = "dict_get p ''category_name'' PNone"
  show ?thesis
  proof (cases "find (\<lambda>r. r ''name'' = ?n) (categories db)")
    case (Some c)
    from find_Some_mem [OF Some] wf_categories_nth(1) [OF wf] have "c ''id'' \<noteq> PNone"
      by blast
    with Some t wf show ?thesis
      by (simp add: resolve_category_def get_or_create_category_by_name_def)
  next
    case None
    then have nf: "\<forall>r \<in> set (categories db). r ''name'' \<noteq> ?n"
      by (simp add: find_None_iff2)
    obtain c created db' where
      "upsert_category now (stub_data ?n) db = (Inr (c, created), db')"
      "c ''id'' \<noteq> PNone" "wf_categories (categories db')" "products db' = products db"
      using stub_category_update [OF wf t nf] stub_category_create [OF wf t nf]
      by (cases "first_index (\<lambda>r. r ''slug'' = PStr (normalize_slug ?n)) (categories db)")
        blast+
    with None t show ?thesis
      by (simp add: resolve_category_def get_or_create_category_by_name_def)
  qed
qed


lemma resolve_brand_frame:
  assumes "resolve_brand now p db = (b, db')"
  shows "products db' = products db \<and> categories db' = categories db"
  using assms upsert_brand_frame
  by (auto simp: resolve_brand_def get_or_create_brand_by_name_def
      split: if_splits option.splits prod.splits sum.splits)

lemma resolve_category_sessions:
  assumes "resolve_category now p db = (c, db')"
  shows "crawl_sessions db' = crawl_sessions db"
  using assms upsert_category_frame
  by (auto simp: resolve_category_def get_or_create_category_by_name_def
      split: if_splits option.splits prod.splits sum.splits)

lemma resolve_brand_sessions:
  assumes "resolve_brand now p db = (b, db')"
  shows "crawl_sessions db' = crawl_sessions db"
  using assms upsert_brand_frame
  by (auto simp: resolve_brand_def get_or_create_brand_by_name_def
      split: if_splits option.splits prod.splits sum.splits)

subsection \<open>The product upsert\<close>

lemma dict_get_truthy:
  assumes "truthy (dict_get p k PNone)"
  shows "\<exists>v. p k = Some v \<and> truthy v \<and> v \<noteq> PNone \<and> dict_get p k PNone = v"
  using assms by (cases "p k") (auto simp: dict_get_def)




lemma overwrite_refused:
  "d k = Some v \<Longrightarrow> \<not> ok v \<Longrightarrow> overwrite cols skip ok d r k = r k"
  by (simp add: overwrite_def)

lemma new_product_values:
  "new_product now pid name slug url p category brand ''id'' = PInt pid"
  "new_product now pid name slug url p category brand ''name'' = name"
  "new_product now pid name slug url p category brand ''slug'' = slug"
  "new_product now pid name slug url p category brand ''url'' = url"
  "new_product now pid name slug url p category brand ''category_id'' =
     (case category of None \<Rightarrow> PNone | Some c \<Rightarrow> c ''id'')"
  by (simp_all add: new_product_def mk_row_def)

text \<open>A row whose key is fresh and whose slug and url are unseen breaks no constraint
  as long as its required columns are filled.\<close>

lemma product_row_accepted:
  assumes "r ''id'' = PInt (new_id rows)" and "r ''name'' \<noteq> PNone"
    and "r ''slug'' \<noteq> PNone" and "r ''url'' \<noteq> PNone" and "r ''category_id'' \<noteq> PNone"
    and "\<forall>other \<in> set rows. other ''slug'' \<noteq> r ''slug'' \<and> other ''url'' \<noteq> r ''url''"
  shows "\<not> violates product_not_null product_unique r rows"
proof -
  have "other ''id'' \<noteq> r ''id''" if "other \<in> set rows" for other
    using new_id_fresh [OF that] assms(1) by simp
  with assms show ?thesis
    unfolding violates_def product_not_null_def product_unique_def
      list_ex_Cons_iff list_ex_Nil_iff
    by (auto simp: list_ex_iff)
qed

lemma upsert_product_created:
  assumes slug: "p ''slug'' = Some slug" and url: "p ''url'' = Some url"
    and name: "p ''name'' = Some name"
    and fresh: "\<forall>r \<in> set (products db). \<not> (r ''slug'' = slug \<or> r ''url'' = url)"
    and rc: "resolve_category now p db = (category, db1)"
    and rb: "resolve_brand now p db1 = (brand, db2)"
    and ok: "\<not> violates product_not_null product_unique
               (new_product now (new_id (products db2)) name slug url p category brand)
               (products db2)"
  shows "upsert_product now p db =
           (Inr (new_product now (new_id (products db2)) name slug url p category brand, True),
            db2\<lparr>products := products db2 @
               [new_product now (new_id (products db2)) name slug url p category brand]\<rparr>)"
proof -
  from fresh have "first_index (\<lambda>r. r ''slug'' = slug \<or> r ''url'' = url) (products db) = None"
    by (simp add: first_index_None)
  with slug url name rc rb ok show ?thesis
    by (simp add: upsert_product_def Let_def)
qed


lemma upsert_product_creates:
  assumes valid: "valid_product p"
    and cat: "truthy (dict_get p ''category_name'' PNone)"
    and wf: "wf_categories (categories db)"
    and unseen: "unseen_product p db"
  shows "\<exists>row1 db1. upsert_product now p db = (Inr (row1, True), db1) \<and>
           products db1 = products db @ [row1] \<and>
           crawl_sessions db1 = crawl_sessions db"
proof -
  from valid obtain name slug url where
    name: "p ''name'' = Some name" "name \<noteq> PNone" and
    slug: "p ''slug'' = Some slug" "slug \<noteq> PNone" "dict_get p ''slug'' PNone = slug" and
    url: "p ''url'' = Some url" "url \<noteq> PNone" "dict_get p ''url'' PNone = url"
    unfolding valid_product_def using dict_get_truthy by metis
  from unseen slug(3) url(3)
  have fresh: "\<forall>r \<in> set (products db). r ''slug'' \<noteq> slug \<and> r ''url'' \<noteq> url"
    by (simp add: unseen_product_def list_all_iff)
  obtain c dbc where rc: "resolve_category now p db = (Some c, dbc)"
    and cid: "c ''id'' \<noteq> PNone" and pc: "products dbc = products db"
    using resolve_category_ok [OF wf cat] by blast
  obtain b dbb where rb: "resolve_brand now p dbc = (b, dbb)"
    by (cases "resolve_brand now p dbc")
  from resolve_brand_frame [OF rb] pc
  have pb: "products dbb = products db" by simp
  from resolve_category_sessions [OF rc] resolve_brand_sessions [OF rb]
  have sb: "crawl_sessions dbb = crawl_sessions db" by simp
  define row1 where "row1 = new_product now (new_id (products dbb)) name slug url p (Some c) b"
  note v1 = new_product_values [of now "new_id (products dbb)" name slug url p "Some c" b,
      folded row1_def]
  have ok: "\<not> violates product_not_null product_unique row1 (products dbb)"
    using name slug url cid fresh by (intro product_row_accepted) (simp_all add: v1 pb)
  have "upsert_product now p db = (Inr (row1, True), dbb\<lparr>products := products dbb @ [row1]\<rparr>)"
    unfolding row1_def
    using fresh ok [unfolded row1_def]
    by (intro upsert_product_created [OF slug(1) url(1) name(1) _ rc rb]) auto
  then show ?thesis by (simp add: pb sb)
qed

lemma sample_product_valid:
  "valid_product sample_product" "truthy (dict_get sample_product ''category_name'' PNone)"
  "sample_product ''id'' = None" "wf_categories (categories empty_database)"
  "unseen_product sample_product empty_database"
  by (simp_all add: valid_product_def sample_product_def dict_get_def u_def
      wf_categories_def empty_database_def unseen_product_def)


lemma upsert_product_no_category:
  "upsert_product now sample_product_no_category empty_database =
     (Inl SQLAlchemyError, empty_database)"
  by (simp add: upsert_product_def sample_product_no_category_def empty_database_def
      resolve_category_def resolve_brand_def dict_get_def new_product_def mk_row_def
      violates_def product_not_null_def)


section \<open>Bulk upsert\<close>


text \<open>After a record whose upsert raises, the loop goes on with the remaining
  records and one more error on the tally.\<close>

lemma bulk_loop_failure_continues:
  assumes "upsert_product now p db = (Inl e, db1)"
  shows "bulk_loop now (p # ps) st db = bulk_loop now ps (st\<lparr>errors := errors st + 1\<rparr>) db1"
  using assms by simp


text \<open>An example: the first record has no category and is refused by the database,
  the second is stored all the same.\<close>

lemma bulk_upsert_example:
  "fst (bulk_upsert_products 1 [sample_product_no_category, sample_product] empty_database) =
     \<lparr>total = 2, created = 1, updated = 0, errors = 1\<rparr>"
proof -
  obtain row1 db1 where
    "upsert_product 1 sample_product empty_database = (Inr (row1, True), db1)"
    using upsert_product_creates [OF sample_product_valid(1,2,4,5)] by blast
  then show ?thesis
    by (simp add: bulk_upsert_products_def upsert_product_no_category)
qed

subsection \<open>What an upsert writes into an existing row\<close>












section \<open>Crawl sessions\<close>

lemma new_session_id_fresh:
  assumes "s \<in> set ss"
  shows "cs_id s \<noteq> new_session_id ss"
proof -
  from assms have "cs_id s \<le> fold max (map cs_id ss) 0"
    by (intro fold_max_mem) simp
  then show ?thesis by (simp add: new_session_id_def)
qed

lemma find_update_snoc:
  assumes "\<forall>x \<in> set xs. \<not> P x" and "P y"
  shows "find P (xs @ [y]) = Some y"
  using assms by (induction xs) auto

text \<open>Finishing the session that was just started, with nothing written to the
  sessions table in between.\<close>

lemma finish_started_session:
  assumes "start_crawl_session t0 db = (cs, db1)"
    and "crawl_sessions db2 = crawl_sessions db1"
  shows "\<exists>s. get_crawl_session (finish_crawl_session t1 (cs_id cs) st stats errs db2)
                 (cs_id cs) = Some s \<and>
              cs_id s = cs_id cs \<and> finished_at s = Some t1 \<and> status s = st \<and>
              started_at s = t0 \<and>
              cs_errors s = (case errs of None \<Rightarrow> None
                             | Some text \<Rightarrow> if text \<noteq> [] then Some text else None)"
proof -
  let ?old = "crawl_sessions db"
  from assms(1) have cs: "cs_id cs = new_session_id ?old" "cs_errors cs = None"
    "started_at cs = t0" and s1: "crawl_sessions db1 = ?old @ [cs]"
    by (auto simp: start_crawl_session_def Let_def)
  have fresh: "\<forall>s \<in> set ?old. \<not> cs_id s = cs_id cs"
    using new_session_id_fresh [of _ ?old] cs(1) by auto
  have s2: "crawl_sessions db2 = ?old @ [cs]" using assms(2) s1 by simp
  have idx: "first_index (\<lambda>s. cs_id s = cs_id cs) (?old @ [cs]) = Some (length ?old)"
    using fresh by (intro first_index_snoc) simp_all
  define s1 where "s1 = cs\<lparr>finished_at := Some t1, status := st\<rparr>"
  define s2' where "s2' = (if stats \<noteq> []
      then s1\<lparr>categories_found := stats_get stats ''categories_found'',
              products_found := stats_get stats ''products_found'',
              products_created := stats_get stats ''products_created'',
              products_updated := stats_get stats ''products_updated''\<rparr>
      else s1)"
  define s3 where "s3 = (case errs of None \<Rightarrow> s2'
      | Some text \<Rightarrow> if text \<noteq> [] then s2'\<lparr>cs_errors := Some text\<rparr> else s2')"
  have upd: "crawl_sessions (finish_crawl_session t1 (cs_id cs) st stats errs db2) =
      ?old @ [s3]"
    by (cases errs) (simp_all add: finish_crawl_session_def s2 idx Let_def s3_def s2'_def s1_def)
  have vals: "cs_id s3 = cs_id cs \<and> finished_at s3 = Some t1 \<and> status s3 = st \<and>
      started_at s3 = t0 \<and>
      cs_errors s3 = (case errs of None \<Rightarrow> None
                      | Some text \<Rightarrow> if text \<noteq> [] then Some text else None)"
    by (simp add: s3_def s2'_def s1_def cs split: option.splits)
  then have "find (\<lambda>s. cs_id s = cs_id cs) (?old @ [s3]) = Some s3"
    using fresh by (intro find_update_snoc) simp_all
  then show ?thesis using vals by (auto simp: get_crawl_session_def upd)
qed

lemma run_crawl_session:
  assumes keeps: "keeps_sessions steps"
    and start: "start_crawl_session t0 (db_manager self) = (cs, db1)"
    and run: "steps db1 (crawler_stats self) = (outcome, db2, st2)"
  shows "\<exists>s. get_crawl_session (db_manager (snd (run_crawl t0 t1 steps self))) (cs_id cs) = Some s \<and>
           session_final t1 s \<and>
           (case outcome of
              Inr done \<Rightarrow> fst (run_crawl t0 t1 steps self) = Inr st2 \<and> status s = ''completed''
            | Inl e \<Rightarrow> fst (run_crawl t0 t1 steps self) = Inl e \<and> status s = ''failed'' \<and>
                cs_errors s = (if error_text e \<noteq> [] then Some (error_text e) else None))"
proof -
  from keeps run have same: "crawl_sessions db2 = crawl_sessions db1"
    unfolding keeps_sessions_def by (metis fst_conv snd_conv)
  show ?thesis
  proof (cases outcome)
    case (Inl e)
    from finish_started_session [OF start same, of t1 "''failed''" st2 "Some (error_text e)"]
    show ?thesis using start run Inl
      by (auto simp: run_crawl_def Let_def session_final_def)
  next
    case (Inr finished)
    from finish_started_session [OF start same, of t1 "''completed''" st2 None]
    show ?thesis using start run Inr
      by (auto simp: run_crawl_def Let_def session_final_def)
  qed
qed
lemma run_crawl_leaves_final:
  assumes "keeps_sessions steps"
  shows "run_leaves_final t0 t1 self steps (run_crawl t0 t1 steps self)"
proof -
  obtain cs db1 where start: "start_crawl_session t0 (db_manager self) = (cs, db1)"
    by (cases "start_crawl_session t0 (db_manager self)")
  obtain outcome db2 st2 where run: "steps db1 (crawler_stats self) = (outcome, db2, st2)"
    by (cases "steps db1 (crawler_stats self)")
  from start have sid: "cs_id cs = new_session_id (crawl_sessions (db_manager self))"
    by (auto simp: start_crawl_session_def Let_def)
  from run_crawl_session [OF assms start run, of t1] obtain s where
    s: "get_crawl_session (db_manager (snd (run_crawl t0 t1 steps self))) (cs_id cs) = Some s"
      "session_final t1 s"
      "case outcome of
         Inr done \<Rightarrow> fst (run_crawl t0 t1 steps self) = Inr st2 \<and> status s = ''completed''
       | Inl e \<Rightarrow> fst (run_crawl t0 t1 steps self) = Inl e \<and> status s = ''failed'' \<and>
           cs_errors s = (if error_text e \<noteq> [] then Some (error_text e) else None)"
    by blast
  from s(3) have "case outcome of
      Inl e \<Rightarrow> fst (run_crawl t0 t1 steps self) = Inl e \<and> status s = ''failed'' \<and>
        cs_errors s = (if error_text e \<noteq> [] then Some (error_text e) else None)
    | Inr finished \<Rightarrow> \<not> isl (fst (run_crawl t0 t1 steps self)) \<and> status s = ''completed''"
    by (cases outcome) simp_all
  moreover have "fst (steps (snd (start_crawl_session t0 (db_manager self)))
      (crawler_stats self)) = outcome"
    by (simp add: start run)
  ultimately show ?thesis
    unfolding run_leaves_final_def sid [symmetric] using s(1,2) by auto
qed

lemma crawl_category_steps_keep:
  assumes "\<forall>category. keeps_sessions (steps category)"
  shows "keeps_sessions (crawl_category_steps category_slug steps)"
  using assms
  by (auto simp: keeps_sessions_def crawl_category_steps_def split: option.splits)

text \<open>The persistence operations the crawl steps are made of leave the sessions
  table alone.\<close>

lemma upsert_product_keeps_sessions:
  "crawl_sessions (snd (upsert_product now p db)) = crawl_sessions db"
proof -
  obtain c db1 where rc: "resolve_category now p db = (c, db1)"
    by (cases "resolve_category now p db")
  obtain b db2 where rb: "resolve_brand now p db1 = (b, db2)"
    by (cases "resolve_brand now p db1")
  from resolve_category_sessions [OF rc] resolve_brand_sessions [OF rb]
  have s: "crawl_sessions db2 = crawl_sessions db" by simp
  show ?thesis
    by (simp add: upsert_product_def Let_def rc rb s split: option.splits)
qed

lemma bulk_loop_keeps_sessions:
  "crawl_sessions (snd (bulk_loop now ps st db)) = crawl_sessions db"
proof (induction ps arbitrary: st db)
  case Nil
  then show ?case by simp
next
  case (Cons p ps)
  obtain res db1 where up: "upsert_product now p db = (res, db1)"
    by (cases "upsert_product now p db")
  with upsert_product_keeps_sessions [of now p db]
  have s: "crawl_sessions db1 = crawl_sessions db" by simp
  show ?case
    using Cons.IH [of _ db1] up s by (cases res) (auto split: prod.splits)
qed

lemma bulk_upsert_steps_keep:
  "keeps_sessions (\<lambda>db st. (Inr (), snd (bulk_upsert_products now ps db), st))"
  by (simp add: keeps_sessions_def bulk_upsert_products_def bulk_loop_keeps_sessions)

text \<open>
  Claim C2: whatever the crawl steps do (they never write the sessions table), each
  of \<open>full_crawl\<close>, \<open>incremental_crawl\<close> and \<open>crawl_category\<close> leaves the session it
  started with \<open>finished_at\<close> set and with status \<open>completed\<close> or \<open>failed\<close>; when an
  exception escapes the steps, the session is failed and records the text of the
  exception, and the same exception is raised to the caller.
\<close>

theorem crawl_session_reaches_final_state:
  assumes "keeps_sessions steps"
    and "\<forall>category. keeps_sessions (category_steps category)"
  shows "run_leaves_final t0 t1 self steps (full_crawl t0 t1 steps self) \<and>
         run_leaves_final t0 t1 self steps (incremental_crawl t0 t1 steps self) \<and>
         run_leaves_final t0 t1 self (crawl_category_steps category_slug category_steps)
           (crawl_category t0 t1 category_slug category_steps self)"
  unfolding full_crawl_def incremental_crawl_def crawl_category_def
  using run_crawl_leaves_final [OF assms(1)]
    run_crawl_leaves_final [OF crawl_category_steps_keep [OF assms(2)]]
  by blast

lemma idle_steps_keep: "keeps_sessions idle_steps"
  by (simp add: keeps_sessions_def idle_steps_def)

theorem crawl_session_reaches_final_state_witness:
  "keeps_sessions idle_steps \<and>
   fst (crawl_category 0 5 (u ''son'') (\<lambda>category. idle_steps) new_crawler) =
     Inl (category_not_found (u ''son'')) \<and>
   (\<exists>s. get_crawl_session
           (db_manager (snd (crawl_category 0 5 (u ''son'') (\<lambda>category. idle_steps) new_crawler)))
           1 = Some s \<and>
        finished_at s = Some 5 \<and> status s = ''failed'' \<and>
        cs_errors s = Some (error_text (category_not_found (u ''son'')))) \<and>
   (\<exists>s. get_crawl_session (db_manager (snd (full_crawl 0 5 idle_steps new_crawler))) 1 = Some s \<and>
        finished_at s = Some 5 \<and> status s = ''completed'')"
proof -
  have k: "\<forall>category. keeps_sessions ((\<lambda>category. idle_steps) category)"
    by (simp add: idle_steps_keep)
  note inst = crawl_session_reaches_final_state [OF idle_steps_keep k,
      of 0 5 new_crawler "u ''son''"]
  have sid: "new_session_id (crawl_sessions (db_manager new_crawler)) = 1"
    by (simp add: new_session_id_def new_crawler_def empty_database_def)
  have out: "fst (crawl_category_steps (u ''son'') (\<lambda>category. idle_steps)
      (snd (start_crawl_session 0 (db_manager new_crawler))) (crawler_stats new_crawler)) =
      Inl (category_not_found (u ''son''))"
    by (simp add: crawl_category_steps_def start_crawl_session_def new_crawler_def
        empty_database_def Let_def)
  have nonempty: "error_text (category_not_found (u ''son'')) \<noteq> []"
    by (simp add: category_not_found_def u_def)
  from inst have "run_leaves_final 0 5 new_crawler
      (crawl_category_steps (u ''son'') (\<lambda>category. idle_steps))
      (crawl_category 0 5 (u ''son'') (\<lambda>category. idle_steps) new_crawler)" by simp
  then have a: "fst (crawl_category 0 5 (u ''son'') (\<lambda>category. idle_steps) new_crawler) =
      Inl (category_not_found (u ''son'')) \<and>
    (\<exists>s. get_crawl_session
           (db_manager (snd (crawl_category 0 5 (u ''son'') (\<lambda>category. idle_steps) new_crawler)))
           1 = Some s \<and>
        finished_at s = Some 5 \<and> status s = ''failed'' \<and>
        cs_errors s = Some (error_text (category_not_found (u ''son''))))"
    unfolding run_leaves_final_def sid out using nonempty
    by (auto simp: session_final_def)
  from inst have "run_leaves_final 0 5 new_crawler idle_steps
      (full_crawl 0 5 idle_steps new_crawler)" by simp
  then have b: "\<exists>s. get_crawl_session
      (db_manager (snd (full_crawl 0 5 idle_steps new_crawler))) 1 = Some s \<and>
        finished_at s = Some 5 \<and> status s = ''completed''"
    unfolding run_leaves_final_def sid
    by (auto simp: session_final_def idle_steps_def)
  from a b idle_steps_keep show ?thesis by blast
qed

section \<open>Export order of categories\<close>

lemma parent_chain_Cons:
  assumes "parent_chain parent acc" and "acc = [] \<or> parent (hd acc) = Some c"
  shows "parent_chain parent (c # acc)"
  using assms by (cases acc) auto

text \<open>Whenever the collection loop ends, it has put the ancestors in front, root first.\<close>

lemma collect_categories_order:
  assumes "collect_categories fuel parent (Some c) acc = Some cats"
    and "parent_chain parent acc" and "acc = [] \<or> parent (hd acc) = Some c"
  shows "\<exists>pre. cats = pre @ c # acc \<and> parent_chain parent cats \<and>
           parent (hd (pre @ [c])) = None"
  using assms
proof (induction fuel arbitrary: c acc)
  case 0
  then show ?case by simp
next
  case (Suc fuel)
  have chain: "parent_chain parent (c # acc)"
    using Suc.prems(2,3) by (rule parent_chain_Cons)
  show ?case
  proof (cases "parent c")
    case None
    with Suc.prems(1) have "cats = [] @ c # acc" by simp
    with chain None have "cats = [] @ c # acc \<and> parent_chain parent cats \<and>
        parent (hd ([] @ [c])) = None" by simp
    then show ?thesis by blast
  next
    case (Some p)
    with Suc.prems(1)
    have "collect_categories fuel parent (Some p) (c # acc) = Some cats" by simp
    from Suc.IH [OF this chain] Some obtain pre where
      pre: "cats = pre @ p # c # acc" "parent_chain parent cats"
        "parent (hd (pre @ [p])) = None"
      by auto
    have "hd ((pre @ [p]) @ [c]) = hd (pre @ [p])" by (cases pre) auto
    with pre have "cats = (pre @ [p]) @ c # acc \<and> parent_chain parent cats \<and>
        parent (hd ((pre @ [p]) @ [c])) = None"
      by simp
    then show ?thesis by blast
  qed
qed

text \<open>On an acyclic parent relation the loop ends once the fuel exceeds the rank of
  the category.\<close>

lemma collect_categories_ends:
  assumes closed: "\<And>r p. r \<in> A \<Longrightarrow> parent r = Some p \<Longrightarrow> p \<in> A \<and> rank p < rank r"
    and "c \<in> A" and "rank c < fuel"
  shows "\<exists>cats. collect_categories fuel parent (Some c) acc = Some cats"
  using assms(2-)
proof (induction fuel arbitrary: c acc)
  case 0
  then show ?case by simp
next
  case (Suc fuel)
  show ?case
  proof (cases "parent c")
    case None
    then show ?thesis by simp
  next
    case (Some p)
    from closed [OF Suc.prems(1) Some] Suc.prems(2) have p: "p \<in> A" "rank p < fuel" by auto
    from Suc.IH [OF p, of "c # acc"] Some show ?thesis by simp
  qed
qed

lemma parent_of_member:
  "parent_of db r = Some p \<Longrightarrow> p \<in> set (categories db)"
  by (auto simp: parent_of_def split: if_splits dest: find_Some_mem)

text \<open>
  Claim C9.  In every file the exporter writes, the category statements are those
  of the ancestors, root first, each directly after its parent, and last that of
  the category itself; they stand together between the schema and the brand and
  product statements.  A file is written whenever the parent links of the category
  table are acyclic (some rank decreases from every category to its parent): the
  collection loop then ends.
\<close>

theorem category_inserts_parents_first:
  "(\<forall>pieces. write_products_sql_file fuel now db prods category = Some pieces \<longrightarrow>
      (\<exists>cats before after.
         pieces = before @ map (category_insert db) cats @ after \<and>
         cats \<noteq> [] \<and> last cats = category \<and> parent_of db (hd cats) = None \<and>
         parent_chain (parent_of db) cats \<and>
         \<not> list_ex is_category_insert before \<and> \<not> list_ex is_category_insert after)) \<and>
   ((\<forall>r \<in> set (category # categories db). \<forall>p. parent_of db r = Some p \<longrightarrow> rank p < rank r) \<and>
    rank category < fuel \<longrightarrow>
      (\<exists>pieces. write_products_sql_file fuel now db prods category = Some pieces))"
proof (rule conjI)
  show "\<forall>pieces. write_products_sql_file fuel now db prods category = Some pieces \<longrightarrow>
      (\<exists>cats before after.
         pieces = before @ map (category_insert db) cats @ after \<and>
         cats \<noteq> [] \<and> last cats = category \<and> parent_of db (hd cats) = None \<and>
         parent_chain (parent_of db) cats \<and>
         \<not> list_ex is_category_insert before \<and> \<not> list_ex is_category_insert after)"
  proof (intro allI impI)
    fix pieces
    assume w: "write_products_sql_file fuel now db prods category = Some pieces"
    then obtain cats where
      cats: "collect_categories fuel (parent_of db) (Some category) [] = Some cats"
      by (auto simp: write_products_sql_file_def generate_category_insert_sql_def
          split: option.splits)
    from collect_categories_order [OF cats] obtain pre where
      pre: "cats = pre @ [category]" "parent_chain (parent_of db) cats"
        "parent_of db (hd (pre @ [category])) = None"
      by auto
    define before where "before = [Header category now (length prods),
        Comment ''Create tables if they don't exist'', CreateTables,
        Comment ''Insert category data'']"
    define after where "after =
        (if export_brands db prods \<noteq> []
         then Comment ''Insert brand data'' # map BrandInsert (export_brands db prods)
         else []) @
        [Comment ''Insert product data''] @ map ProductInsert prods @
        [Comment ''End of export'']"
    from w have written: "pieces = before @ map (category_insert db) cats @ after"
      by (simp add: write_products_sql_file_def generate_category_insert_sql_def cats
          before_def after_def)
    have nb: "\<not> list_ex is_category_insert before"
      by (simp add: before_def is_category_insert_def)
    have na: "\<not> list_ex is_category_insert after"
      by (auto simp: after_def is_category_insert_def list_ex_iff)
    from pre written nb na
    show "\<exists>cats before after.
         pieces = before @ map (category_insert db) cats @ after \<and>
         cats \<noteq> [] \<and> last cats = category \<and> parent_of db (hd cats) = None \<and>
         parent_chain (parent_of db) cats \<and>
         \<not> list_ex is_category_insert before \<and> \<not> list_ex is_category_insert after"
      by (intro exI [of _ cats] exI [of _ before] exI [of _ after]) auto
  qed
next
  show "(\<forall>r \<in> set (category # categories db). \<forall>p. parent_of db r = Some p \<longrightarrow> rank p < rank r) \<and>
    rank category < fuel \<longrightarrow>
      (\<exists>pieces. write_products_sql_file fuel now db prods category = Some pieces)"
  proof
    assume a: "(\<forall>r \<in> set (category # categories db). \<forall>p. parent_of db r = Some p \<longrightarrow>
        rank p < rank r) \<and> rank category < fuel"
    let ?A = "set (category # categories db)"
    have closed: "p \<in> ?A \<and> rank p < rank r" if "r \<in> ?A" "parent_of db r = Some p" for r p
      using a that parent_of_member [OF that(2)] by auto
    from collect_categories_ends [of ?A "parent_of db" rank category fuel "[]", OF closed] a
    obtain cats where
      "collect_categories fuel (parent_of db) (Some category) [] = Some cats" by auto
    then show "\<exists>pieces. write_products_sql_file fuel now db prods category = Some pieces"
      by (simp add: write_products_sql_file_def generate_category_insert_sql_def)
  qed
qed

lemma tree_parents:
  "parent_of tree_database child_category = Some root_category"
  "parent_of tree_database root_category = None"
  by (simp_all add: parent_of_def tree_database_def child_category_def root_category_def
      mk_row_def)

lemma tree_ids: "id_of root_category = 1" "id_of child_category = 2"
  by (simp_all add: id_of_def root_category_def child_category_def mk_row_def)

theorem category_inserts_parents_first_witness:
  "parent_of tree_database child_category = Some root_category \<and>
   parent_of tree_database root_category = None \<and>
   (\<exists>pieces cats before after.
      write_products_sql_file 3 0 tree_database [] child_category = Some pieces \<and>
      pieces = before @ map (category_insert tree_database) cats @ after \<and>
      cats \<noteq> [] \<and> last cats = child_category \<and>
      parent_of tree_database (hd cats) = None \<and>
      parent_chain (parent_of tree_database) cats \<and>
      \<not> list_ex is_category_insert before \<and> \<not> list_ex is_category_insert after)"
proof -
  have acyclic: "\<forall>r \<in> set (child_category # categories tree_database).
      \<forall>p. parent_of tree_database r = Some p \<longrightarrow> nat (id_of p) < nat (id_of r)"
  proof (intro ballI allI impI)
    fix r p
    assume r: "r \<in> set (child_category # categories tree_database)"
      and p: "parent_of tree_database r = Some p"
    from r have "r = child_category \<or> r = root_category"
      by (auto simp: tree_database_def)
    then show "nat (id_of p) < nat (id_of r)"
    proof
      assume c: "r = child_category"
      with p tree_parents(1) have "p = root_category" by simp
      with c show ?thesis by (simp add: tree_ids)
    next
      assume "r = root_category"
      with p tree_parents(2) show ?thesis by simp
    qed
  qed
  have fuel: "nat (id_of child_category) < 3" by (simp add: tree_ids)
  note inst = category_inserts_parents_first
    [of 3 0 tree_database "[]" child_category "\<lambda>r. nat (id_of r)"]
  from inst acyclic fuel obtain pieces where
    w: "write_products_sql_file 3 0 tree_database [] child_category = Some pieces"
    by blast
  with inst have "\<exists>cats before after.
      pieces = before @ map (category_insert tree_database) cats @ after \<and>
      cats \<noteq> [] \<and> last cats = child_category \<and>
      parent_of tree_database (hd cats) = None \<and>
      parent_chain (parent_of tree_database) cats \<and>
      \<not> list_ex is_category_insert before \<and> \<not> list_ex is_category_insert after"
    by blast
  with w tree_parents show ?thesis by blast
qed

lemma tree_collect:
  "collect_categories 3 (parent_of tree_database) (Some child_category) [] =
     Some [root_category, child_category]"
  by (simp add: numeral_3_eq_3 tree_parents)

end
